theory Spec2Isabelle
  imports Complex_Main "HOL-Library.Sublist"
begin

section \<open>Python strings\<close>

text \<open>
  A Python \<open>str\<close> is modelled as a \<^typ>\<open>string\<close> in which every \<^typ>\<open>char\<close> stands for
  one code point below 256 (Latin-1), so \<open>length\<close> counts what Python's \<open>len\<close> counts.
  \<open>isspace\<close> lists the code points below 256 that \<open>str.isspace\<close> accepts; \<open>str.strip()\<close>
  removes them from both ends.
\<close>

definition isspace :: "char \<Rightarrow> bool" where
  "isspace c \<longleftrightarrow> c \<in> set [CHR 0x09, CHR 0x0A, CHR 0x0B, CHR 0x0C, CHR 0x0D,
      CHR 0x1C, CHR 0x1D, CHR 0x1E, CHR 0x1F, CHR 0x20, CHR 0x85, CHR 0xA0]"

definition str_strip :: "string \<Rightarrow> string" where
  "str_strip s = rev (dropWhile isspace (rev (dropWhile isspace s)))"

text \<open>
  \<open>s.find(sub)\<close>: the lowest index at which \<open>sub\<close> occurs in \<open>s\<close>; Python's \<open>-1\<close> is
  \<open>None\<close>.
\<close>

fun str_find :: "string \<Rightarrow> string \<Rightarrow> nat option" where
  "str_find [] sub = (if sub = [] then Some 0 else None)"
| "str_find (c # cs) sub =
     (if prefix sub (c # cs) then Some 0 else map_option Suc (str_find cs sub))"

text \<open>
  \<open>s.split(sep)\<close> scans from the left and cuts at every occurrence of \<open>sep\<close> that does
  not overlap the previous one. Python raises \<open>ValueError\<close> on an empty separator.
\<close>

datatype error = ValueError | IndexError | FileDataError | OtherError

fun split_nonempty :: "string \<Rightarrow> string \<Rightarrow> string list" where
  "split_nonempty [] sep = [[]]"
| "split_nonempty (c # cs) sep =
     (if sep \<noteq> [] \<and> prefix sep (c # cs)
      then [] # split_nonempty (drop (length sep) (c # cs)) sep
      else (case split_nonempty cs sep of [] \<Rightarrow> [[c]] | p # ps \<Rightarrow> (c # p) # ps))"

definition str_split :: "string \<Rightarrow> string \<Rightarrow> error + string list" where
  "str_split s sep = (if sep = [] then Inl ValueError else Inr (split_nonempty s sep))"

text \<open>
  \<open>s.replace(old, new)\<close>: every non-overlapping occurrence of \<open>old\<close>, from the left, is
  replaced; the result is not scanned again. With an empty \<open>old\<close> Python puts \<open>new\<close>
  before every character and at the end.
\<close>

fun str_replace :: "string \<Rightarrow> string \<Rightarrow> string \<Rightarrow> string" where
  "str_replace [] old new = (if old = [] then new else [])"
| "str_replace (c # cs) old new =
     (if old = [] then new @ c # str_replace cs old new
      else if prefix old (c # cs) then new @ str_replace (drop (length old) (c # cs)) old new
      else c # str_replace cs old new)"

text \<open>
  \<open>str.lower()\<close> on code points below 256: \<open>A\<close>..\<open>Z\<close> and the accented capitals
  \<open>0xC0\<close>..\<open>0xDE\<close> (the multiplication sign \<open>0xD7\<close> apart) move up by 32.
\<close>

definition lower_char :: "char \<Rightarrow> char" where
  "lower_char c =
     (let n = (of_char c :: nat)
      in if (65 \<le> n \<and> n \<le> 90) \<or> (192 \<le> n \<and> n \<le> 222 \<and> n \<noteq> 215)
         then char_of (n + 32) else c)"

definition str_lower :: "string \<Rightarrow> string" where
  "str_lower s = map lower_char s"

definition str_endswith :: "string \<Rightarrow> string \<Rightarrow> bool" where
  "str_endswith s suf \<longleftrightarrow> suffix suf s"

fun str_join :: "string \<Rightarrow> string list \<Rightarrow> string" where
  "str_join sep [] = []"
| "str_join sep [x] = x"
| "str_join sep (x # y # ys) = x @ sep @ str_join sep (y # ys)"

section \<open>Numbers\<close>

text \<open>
  A similarity score is a finite Python \<open>float\<close>; it is modelled by the real number it
  denotes. The comparisons \<open>score > max_score\<close> and \<open>score >= 0.75\<close> are exact on floats
  (\<open>0.75\<close> is a binary fraction), so they are the comparisons of those reals. A
  not-a-number score is outside the model.

  \<open>round(x, 4)\<close> rounds the exact value of \<open>x\<close> to four decimals, ties to the even
  digit; the model returns that decimal, where Python returns the float nearest to it.
\<close>

definition round_half_even :: "real \<Rightarrow> int" where
  "round_half_even x =
     (let f = \<lfloor>x\<rfloor>; d = x - of_int f
      in if d < 1 / 2 then f else if d > 1 / 2 then f + 1 else if even f then f else f + 1)"

definition py_round :: "real \<Rightarrow> nat \<Rightarrow> real" where
  "py_round x ndigits = of_int (round_half_even (x * 10 ^ ndigits)) / 10 ^ ndigits"

section \<open>HTTP errors and upload validation (main.py)\<close>

datatype http_exception = HTTPException (status_code: nat) (detail: string)

text \<open>
  The \<open>UploadFile\<close> handed to the handler: the three attributes \<open>validate_file\<close> looks
  at, each of which may be \<open>None\<close>, and the outcome of \<open>await file.read()\<close> (the bytes,
  or an exception).
\<close>

record upload_file =
  size_attr :: "int option"
  filename :: "string option"
  content_type :: "string option"
  read :: "error + nat list"

definition MAX_FILE_SIZE :: int where
  "MAX_FILE_SIZE = 10 * 1024 * 1024"

text \<open>\<open>file.size and file.size > MAX_FILE_SIZE\<close>: \<open>None\<close> and \<open>0\<close> are falsy.\<close>

definition size_too_large :: "upload_file \<Rightarrow> bool" where
  "size_too_large file \<longleftrightarrow>
     (case size_attr file of None \<Rightarrow> False | Some n \<Rightarrow> n \<noteq> 0 \<and> n > MAX_FILE_SIZE)"

definition validate_file :: "upload_file \<Rightarrow> http_exception + unit" where
  "validate_file file =
     (if size_too_large file
      then Inl (HTTPException 413 ''File size too large (max 10MB)'')
      else (case filename file of
          None \<Rightarrow> Inl (HTTPException 400 ''Filename is required'')
        | Some name \<Rightarrow>
            if name = [] then Inl (HTTPException 400 ''Filename is required'')
            else if \<not> str_endswith (str_lower name) ''.pdf''
            then Inl (HTTPException 400 ''Only PDF files are supported'')
            else (case content_type file of
                None \<Rightarrow> Inr ()
              | Some t \<Rightarrow>
                  if t \<noteq> [] \<and> t \<notin> set [''application/pdf'']
                  then Inl (HTTPException 400 ''Invalid content type. Expected application/pdf'')
                  else Inr ())))"

section \<open>Text extraction (main.py)\<close>

text \<open>
  What \<open>fitz\<close> does with the bytes is a parameter: it raises (\<open>FileDataError\<close> or
  anything else, while opening or while reading a page), or yields the text of each page.
\<close>

datatype fitz_doc = Raises error | Pages "string list"

definition extract_full_pdf_text :: "fitz_doc \<Rightarrow> http_exception + string" where
  "extract_full_pdf_text doc =
     (case doc of
        Raises e \<Rightarrow>
          if e = FileDataError then Inl (HTTPException 400 ''Invalid PDF file format'')
          else Inl (HTTPException 500 ''Failed to extract text from PDF'')
      | Pages pages \<Rightarrow>
          if length pages = 0 then Inl (HTTPException 400 ''PDF file contains no pages'')
          else let text = str_join ''\<newline>'' pages
               in if str_strip text = []
                  then Inl (HTTPException 400 ''PDF file contains no extractable text'')
                  else Inr text)"

section \<open>Output parser (main.py)\<close>

text \<open>
  The body of the \<open>try\<close> block of \<open>parse_chain_output\<close>, then the function with its
  \<open>except Exception\<close> clause, which turns every exception of the body into the same
  \<open>HTTPException\<close>.
\<close>

definition parse_chain_output_try :: "string \<Rightarrow> error + string \<times> string" where
  "parse_chain_output_try output =
     (case str_split output ''SKILLS:'' of
        Inl e \<Rightarrow> Inl e
      | Inr parts \<Rightarrow>
          (case parts of
             [] \<Rightarrow> Inl IndexError
           | p0 # _ \<Rightarrow>
               let summary_text = str_strip (str_replace p0 ''SUMMARY:'' '''');
                   skills = (if length parts > 1 then str_strip (parts ! 1) else '''')
               in if summary_text = [] then Inl ValueError
                  else Inr (summary_text, skills)))"

definition parse_chain_output :: "string \<Rightarrow> http_exception + string \<times> string" where
  "parse_chain_output output =
     (case parse_chain_output_try output of
        Inl e \<Rightarrow> Inl (HTTPException 500 ''Failed to process document content'')
      | Inr r \<Rightarrow> Inr r)"

section \<open>Duplicate decision (main.py)\<close>

text \<open>
  A corpus document carries a metadata dictionary; its values are strings or integers.
  \<open>doc.metadata.get("source_file")\<close> is \<open>None\<close> when the key is missing.
\<close>

datatype meta_value = Str string | Num int

record document =
  page_content :: string
  metadata :: "string \<rightharpoonup> meta_value"

definition source_file :: "document \<Rightarrow> meta_value option" where
  "source_file doc = metadata doc ''source_file''"

fun truthy :: "meta_value \<Rightarrow> bool" where
  "truthy (Str s) = (s \<noteq> [])"
| "truthy (Num n) = (n \<noteq> 0)"

text \<open>The three local variables the loop over the search results updates.\<close>

record decision =
  plagiarism_detected :: bool
  max_score :: real
  matched_files :: "meta_value list"

fun loop_body :: "real \<Rightarrow> decision \<Rightarrow> document \<times> real \<Rightarrow> decision" where
  "loop_body th st (doc, score) =
     (let st1 = (if score > max_score st then st\<lparr>max_score := score\<rparr> else st)
      in if score \<ge> th
         then (let st2 = st1\<lparr>plagiarism_detected := True\<rparr>
               in case source_file doc of
                    None \<Rightarrow> st2
                  | Some v \<Rightarrow>
                      if truthy v \<and> v \<notin> set (matched_files st2)
                      then st2\<lparr>matched_files := matched_files st2 @ [v]\<rparr>
                      else st2)
         else st1)"

definition analyze :: "real \<Rightarrow> (document \<times> real) list \<Rightarrow> decision" where
  "analyze th results =
     foldl (loop_body th)
       \<lparr>plagiarism_detected = False, max_score = 0, matched_files = []\<rparr> results"

definition analyze_results :: "(document \<times> real) list \<Rightarrow> decision" where
  "analyze_results results = analyze 0.75 results"

section \<open>The request handler (main.py)\<close>

text \<open>
  The collaborators are parameters: each is a function from its arguments to what it
  returns or raises. The handler's result comes with the list of collaborator calls it
  made, in order. Logging is left out.
\<close>

record services =
  fitz_open :: "nat list \<Rightarrow> fitz_doc"
  chain_invoke :: "string \<Rightarrow> error + string"
  similarity_search_with_score :: "string \<Rightarrow> nat \<Rightarrow> error + (document \<times> real) list"
  add_documents :: "document list \<Rightarrow> error + unit"

datatype call =
  ChainInvoke string
| SimilaritySearch string nat
| AddDocuments "document list"
| DescribeIndexStats

record response_data = decision +
  threshold :: real
  document_added :: bool

text \<open>
  Lines 217 to 253 of the handler: validation, reading, extraction, the summarizer call,
  parsing, the new document and the search. An exception of \<open>file.read()\<close> reaches the
  handler's last \<open>except Exception\<close> clause.
\<close>

definition new_document :: "upload_file \<Rightarrow> nat list \<Rightarrow> string \<Rightarrow> string \<Rightarrow> document" where
  "new_document file file_bytes summary_text skills =
     \<lparr>page_content = summary_text,
      metadata = (Map.empty(''source_file'' := map_option Str (filename file)))
        (''skills'' \<mapsto> Str skills, ''file_size'' \<mapsto> Num (int (length file_bytes)))\<rparr>"

definition search_stage ::
  "services \<Rightarrow> upload_file \<Rightarrow>
     (http_exception + document \<times> (document \<times> real) list) \<times> call list" where
  "search_stage sv file =
     (case validate_file file of
        Inl e \<Rightarrow> (Inl e, [])
      | Inr _ \<Rightarrow>
     (case read file of
        Inl e \<Rightarrow> (Inl (HTTPException 500 ''Internal server error''), [])
      | Inr file_bytes \<Rightarrow>
     (case extract_full_pdf_text (fitz_open sv file_bytes) of
        Inl e \<Rightarrow> (Inl e, [])
      | Inr full_text \<Rightarrow>
     (case chain_invoke sv full_text of
        Inl e \<Rightarrow> (Inl (HTTPException 500 ''Failed to process document with AI model''),
                  [ChainInvoke full_text])
      | Inr output \<Rightarrow>
     (case parse_chain_output output of
        Inl e \<Rightarrow> (Inl e, [ChainInvoke full_text])
      | Inr (summary_text, skills) \<Rightarrow>
     (case similarity_search_with_score sv summary_text 3 of
        Inl e \<Rightarrow> (Inl (HTTPException 500 ''Failed to search for similar documents''),
                  [ChainInvoke full_text, SimilaritySearch summary_text 3])
      | Inr results \<Rightarrow>
          (Inr (new_document file file_bytes summary_text skills, results),
           [ChainInvoke full_text, SimilaritySearch summary_text 3])))))))"

text \<open>
  Lines 270 to 282: the insertion, inside its own \<open>try\<close>; an exception of
  \<open>add_documents\<close> or of \<open>describe_index_stats\<close> is logged and dropped.
\<close>

definition admit :: "services \<Rightarrow> document \<Rightarrow> bool \<Rightarrow> call list" where
  "admit sv new_doc detected =
     (if \<not> detected
      then (case add_documents sv [new_doc] of
              Inl e \<Rightarrow> [AddDocuments [new_doc]]
            | Inr _ \<Rightarrow> [AddDocuments [new_doc], DescribeIndexStats])
      else [])"

text \<open>Lines 285 to 291: the response dictionary.\<close>

definition respond :: "decision \<Rightarrow> response_data" where
  "respond d =
     \<lparr>plagiarism_detected = plagiarism_detected d,
      max_score = py_round (max_score d) 4,
      matched_files = matched_files d,
      threshold = 0.75,
      document_added = (\<not> plagiarism_detected d)\<rparr>"

definition check_plagiarism ::
  "services \<Rightarrow> upload_file \<Rightarrow> (http_exception + response_data) \<times> call list" where
  "check_plagiarism sv file =
     (case search_stage sv file of
        (Inl e, calls) \<Rightarrow> (Inl e, calls)
      | (Inr (new_doc, results), calls) \<Rightarrow>
          (let d = analyze_results results
           in (Inr (respond d), calls @ admit sv new_doc (plagiarism_detected d))))"

text \<open>
  What the client sees: \<open>JSONResponse\<close> answers 200; an \<open>HTTPException\<close> answers its
  own status, and the handler registered for 413 replaces the detail.
\<close>

datatype body = Json response_data | Detail string

fun http_reply :: "http_exception + response_data \<Rightarrow> nat \<times> body" where
  "http_reply (Inr r) = (200, Json r)"
| "http_reply (Inl (HTTPException s d)) =
     (s, Detail (if s = 413 then ''File too large'' else d))"

definition insert_calls :: "call list \<Rightarrow> nat" where
  "insert_calls calls = length (filter (\<lambda>c. case c of AddDocuments _ \<Rightarrow> True | _ \<Rightarrow> False) calls)"

section \<open>The earlier variant of the decision loop (app.py)\<close>

text \<open>
  \<open>app.py\<close> has the same loop without the check on the label: every match at or above
  the threshold appends what \<open>get\<close> returned, \<open>None\<close> and repeated values included.
\<close>

record app_decision =
  app_plagiarism_detected :: bool
  app_max_score :: real
  app_matched_files :: "meta_value option list"

fun app_loop_body :: "app_decision \<Rightarrow> document \<times> real \<Rightarrow> app_decision" where
  "app_loop_body st (doc, score) =
     (let st1 = (if score > app_max_score st then st\<lparr>app_max_score := score\<rparr> else st)
      in if score \<ge> 0.75
         then st1\<lparr>app_plagiarism_detected := True,
                  app_matched_files := app_matched_files st1 @ [source_file doc]\<rparr>
         else st1)"

definition app_analyze_results :: "(document \<times> real) list \<Rightarrow> app_decision" where
  "app_analyze_results results =
     foldl app_loop_body
       \<lparr>app_plagiarism_detected = False, app_max_score = 0, app_matched_files = []\<rparr> results"

section \<open>The specification's notions\<close>

text \<open>
  The text before the first occurrence of a marker (all of it when the marker is
  absent), and the text after it.
\<close>

definition before_first :: "string \<Rightarrow> string \<Rightarrow> string" where
  "before_first s marker = (case str_find s marker of None \<Rightarrow> s | Some i \<Rightarrow> take i s)"

definition after_first :: "string \<Rightarrow> string \<Rightarrow> string option" where
  "after_first s marker =
     (case str_find s marker of None \<Rightarrow> None | Some i \<Rightarrow> Some (drop (i + length marker) s))"

text \<open>
  The parser as section 4.1 words it: the summary is what precedes the first
  \<open>SKILLS:\<close>, without \<open>SUMMARY:\<close>, trimmed; the skills are everything after the first
  \<open>SKILLS:\<close>, trimmed, or empty without a marker.
\<close>

definition summary_as_specified :: "string \<Rightarrow> string" where
  "summary_as_specified output =
     str_strip (str_replace (before_first output ''SKILLS:'') ''SUMMARY:'' '''')"

definition skills_as_specified :: "string \<Rightarrow> string" where
  "skills_as_specified output =
     (case after_first output ''SKILLS:'' of None \<Rightarrow> '''' | Some rest \<Rightarrow> str_strip rest)"

text \<open>The skills the code returns: the text after the first marker, up to the next one.\<close>

definition skills_up_to_next_marker :: "string \<Rightarrow> string" where
  "skills_up_to_next_marker output =
     (case after_first output ''SKILLS:'' of
        None \<Rightarrow> ''''
      | Some rest \<Rightarrow> str_strip (before_first rest ''SKILLS:''))"

text \<open>
  A list without its repeated values, each kept where it first stands.
\<close>

fun first_seen :: "'a list \<Rightarrow> 'a list" where
  "first_seen [] = []"
| "first_seen (x # xs) = x # first_seen (filter (\<lambda>y. y \<noteq> x) xs)"

text \<open>
  The matches at or above a threshold, in order; whether a document has a label the loop
  of \<open>main.py\<close> reports; the labels it reports.
\<close>

definition flagged :: "real \<Rightarrow> (document \<times> real) list \<Rightarrow> (document \<times> real) list" where
  "flagged th results = filter (\<lambda>m. snd m \<ge> th) results"

definition has_label :: "document \<Rightarrow> bool" where
  "has_label doc \<longleftrightarrow> (case source_file doc of None \<Rightarrow> False | Some v \<Rightarrow> truthy v)"

definition labels :: "(document \<times> real) list \<Rightarrow> meta_value list" where
  "labels ms =
     concat (map (\<lambda>m. case source_file (fst m) of
                        None \<Rightarrow> []
                      | Some v \<Rightarrow> if truthy v then [v] else []) ms)"

section \<open>Inputs of the test suite (test\_app.py)\<close>

text \<open>
  A corpus document as the tests mock it: only the label is set. The upload and the
  patched collaborators of \<open>test_vector_store_add_failure\<close> and its siblings: the
  summarizer returns \<open>chain\<close>, the search returns \<open>found\<close>, the insertion returns or
  raises \<open>added\<close>.
\<close>

definition corpus_doc :: "string \<Rightarrow> document" where
  "corpus_doc name = \<lparr>page_content = [], metadata = [''source_file'' \<mapsto> Str name]\<rparr>"

definition unlabelled_doc :: document where
  "unlabelled_doc = \<lparr>page_content = [], metadata = Map.empty\<rparr>"

definition test_pdf :: upload_file where
  "test_pdf = \<lparr>size_attr = Some 4, filename = Some ''test.pdf'',
     content_type = Some ''application/pdf'', read = Inr [37, 80, 68, 70]\<rparr>"

definition patched ::
  "error + string \<Rightarrow> error + (document \<times> real) list \<Rightarrow> error + unit \<Rightarrow> services" where
  "patched chain found added =
     \<lparr>fitz_open = (\<lambda>_. Pages [''1.1 Purpose: testing'']),
      chain_invoke = (\<lambda>_. chain),
      similarity_search_with_score = (\<lambda>_ _. found),
      add_documents = (\<lambda>_. added)\<rparr>"

section \<open>Lemmas\<close>

subsection \<open>Strings and the parser\<close>

lemma str_find_Some_iff:
  "str_find s sub = Some i \<longleftrightarrow>
     i \<le> length s \<and> prefix sub (drop i s) \<and> (\<forall>j<i. \<not> prefix sub (drop j s))"
proof (induction s arbitrary: i)
  case Nil
  then show ?case by auto
next
  case (Cons c cs)
  show ?case
  proof (cases "prefix sub (c # cs)")
    case True
    then show ?thesis by (auto intro: ccontr)
  next
    case False
    show ?thesis
    proof (cases i)
      case 0
      with False show ?thesis by auto
    next
      case (Suc k)
      have "(\<forall>j<Suc k. \<not> prefix sub (drop j (c # cs))) \<longleftrightarrow> (\<forall>j<k. \<not> prefix sub (drop j cs))"
        using False by (auto simp: less_Suc_eq_0_disj)
      with Suc False Cons.IH[of k] show ?thesis by auto
    qed
  qed
qed

lemma split_nonempty_find:
  "sep \<noteq> [] \<Longrightarrow> split_nonempty s sep =
     (case str_find s sep of None \<Rightarrow> [s]
      | Some i \<Rightarrow> take i s # split_nonempty (drop (i + length sep) s) sep)"
  by (induction s) (auto split: option.splits)

lemma split_nonempty_hd:
  "sep \<noteq> [] \<Longrightarrow> \<exists>ps. split_nonempty s sep = before_first s sep # ps"
  by (subst split_nonempty_find) (auto simp: before_first_def split: option.splits)

lemma split_nonempty_parts:
  assumes "sep \<noteq> []"
  shows "split_nonempty s sep =
     before_first s sep #
       (case after_first s sep of None \<Rightarrow> [] | Some rest \<Rightarrow> split_nonempty rest sep)"
  using assms
  by (subst split_nonempty_find) (auto simp: before_first_def after_first_def split: option.splits)

lemma parse_chain_output_try_eq:
  "parse_chain_output_try output =
     (if summary_as_specified output = [] then Inl ValueError
      else Inr (summary_as_specified output, skills_up_to_next_marker output))"
proof (cases "after_first output ''SKILLS:''")
  case None
  then have "split_nonempty output ''SKILLS:'' = [before_first output ''SKILLS:'']"
    by (simp add: split_nonempty_parts)
  with None show ?thesis
    by (simp add: parse_chain_output_try_def str_split_def summary_as_specified_def
        skills_up_to_next_marker_def)
next
  case (Some rest)
  obtain ps where ps: "split_nonempty rest ''SKILLS:'' = before_first rest ''SKILLS:'' # ps"
    using split_nonempty_hd[of "''SKILLS:''" rest] by auto
  from Some have "split_nonempty output ''SKILLS:'' =
      before_first output ''SKILLS:'' # before_first rest ''SKILLS:'' # ps"
    by (simp add: split_nonempty_parts ps)
  with Some show ?thesis
    by (simp add: parse_chain_output_try_def str_split_def summary_as_specified_def
        skills_up_to_next_marker_def)
qed

lemma parse_chain_output_eq:
  "parse_chain_output output =
     (if summary_as_specified output = []
      then Inl (HTTPException 500 ''Failed to process document content'')
      else Inr (summary_as_specified output, skills_up_to_next_marker output))"
  by (simp add: parse_chain_output_def parse_chain_output_try_eq)

lemmas parser_eval =
  parse_chain_output_def parse_chain_output_try_def str_split_def str_strip_def isspace_def
  summary_as_specified_def skills_as_specified_def skills_up_to_next_marker_def
  before_first_def after_first_def

lemma analyze_Nil: "analyze th [] = \<lparr>plagiarism_detected = False, max_score = 0, matched_files = []\<rparr>"
  by (simp add: analyze_def)

lemma analyze_snoc: "analyze th (ms @ [m]) = loop_body th (analyze th ms) m"
  by (simp add: analyze_def)

lemma loop_body_detected:
  "plagiarism_detected (loop_body th st m) \<longleftrightarrow> plagiarism_detected st \<or> snd m \<ge> th"
  by (cases m) (simp add: Let_def split: option.splits)

lemma loop_body_max: "max_score (loop_body th st m) = max (max_score st) (snd m)"
  by (cases m) (simp add: Let_def max_def split: option.splits)

lemma loop_body_files:
  "matched_files (loop_body th st m) =
     (if snd m \<ge> th
      then (case source_file (fst m) of
              None \<Rightarrow> matched_files st
            | Some v \<Rightarrow> if truthy v \<and> v \<notin> set (matched_files st)
                        then matched_files st @ [v] else matched_files st)
      else matched_files st)"
  by (cases m) (simp add: Let_def split: option.splits)

lemma detected_iff: "plagiarism_detected (analyze th ms) \<longleftrightarrow> (\<exists>m\<in>set ms. snd m \<ge> th)"
  by (induction ms rule: rev_induct) (auto simp: analyze_Nil analyze_snoc loop_body_detected)

lemma max_score_eq: "max_score (analyze th ms) = Max (insert 0 (snd ` set ms))"
proof (induction ms rule: rev_induct)
  case Nil
  then show ?case by (simp add: analyze_Nil)
next
  case (snoc m ms)
  have "Max (insert 0 (snd ` set (ms @ [m]))) = Max (insert (snd m) (insert 0 (snd ` set ms)))"
    by (simp add: insert_commute)
  also have "\<dots> = max (snd m) (Max (insert 0 (snd ` set ms)))"
    by (rule Max_insert) auto
  finally show ?case
    using snoc.IH by (simp add: analyze_snoc loop_body_max max.commute)
qed

lemma first_seen_set: "set (first_seen xs) = set xs"
  by (induction xs rule: first_seen.induct) auto

lemma first_seen_distinct: "distinct (first_seen xs)"
  by (induction xs rule: first_seen.induct) (auto simp: first_seen_set)

lemma first_seen_snoc:
  "first_seen (xs @ [y]) = (if y \<in> set xs then first_seen xs else first_seen xs @ [y])"
  by (induction xs rule: first_seen.induct) auto

lemma labels_snoc:
  "labels (ms @ [m]) = labels ms @
     (case source_file (fst m) of None \<Rightarrow> [] | Some v \<Rightarrow> if truthy v then [v] else [])"
  by (simp add: labels_def)

lemma flagged_snoc:
  "flagged th (ms @ [m]) = (if snd m \<ge> th then flagged th ms @ [m] else flagged th ms)"
  by (simp add: flagged_def)

lemma matched_files_eq:
  "matched_files (analyze th ms) = first_seen (labels (flagged th ms))"
proof (induction ms rule: rev_induct)
  case Nil
  then show ?case by (simp add: analyze_Nil labels_def flagged_def)
next
  case (snoc m ms)
  then show ?case
    by (simp add: analyze_snoc loop_body_files flagged_snoc labels_snoc first_seen_snoc
        first_seen_set split: option.splits)
qed

lemma labels_nonempty: "labels ms \<noteq> [] \<longleftrightarrow> (\<exists>m\<in>set ms. has_label (fst m))"
  by (induction ms) (auto simp: labels_def has_label_def split: option.splits)

lemma first_seen_Nil_iff: "first_seen xs = [] \<longleftrightarrow> xs = []"
  by (cases xs) auto

lemma matched_files_nonempty:
  "matched_files (analyze th ms) \<noteq> [] \<longleftrightarrow> (\<exists>m\<in>set ms. snd m \<ge> th \<and> has_label (fst m))"
proof -
  have "matched_files (analyze th ms) \<noteq> [] \<longleftrightarrow> (\<exists>m\<in>set (flagged th ms). has_label (fst m))"
    by (simp only: matched_files_eq first_seen_Nil_iff labels_nonempty)
  also have "\<dots> \<longleftrightarrow> (\<exists>m\<in>set ms. snd m \<ge> th \<and> has_label (fst m))"
    by (simp add: flagged_def Bex_def conj_ac)
  finally show ?thesis .
qed

lemma app_snoc: "app_analyze_results (ms @ [m]) = app_loop_body (app_analyze_results ms) m"
  by (simp add: app_analyze_results_def)

lemma app_agrees:
  "app_plagiarism_detected (app_analyze_results ms) = plagiarism_detected (analyze_results ms) \<and>
   app_max_score (app_analyze_results ms) = max_score (analyze_results ms) \<and>
   app_matched_files (app_analyze_results ms) = map (\<lambda>m. source_file (fst m)) (flagged 0.75 ms)"
proof (induction ms rule: rev_induct)
  case Nil
  then show ?case by (simp add: app_analyze_results_def analyze_results_def analyze_Nil flagged_def)
next
  case (snoc m ms)
  then show ?case
    by (cases m) (simp add: app_snoc analyze_results_def analyze_snoc flagged_snoc Let_def loop_body_detected loop_body_max del: loop_body.simps)
qed


subsection \<open>The handler\<close>

lemma validate_file_status:
  "validate_file file = Inl e \<Longrightarrow> status_code e = 400 \<or> status_code e = 413"
  by (auto simp: validate_file_def split: if_splits option.splits)

lemma extract_status:
  "extract_full_pdf_text doc = Inl e \<Longrightarrow> status_code e = 400 \<or> status_code e = 500"
  by (auto simp: extract_full_pdf_text_def Let_def split: if_splits fitz_doc.splits)

lemma parse_status: "parse_chain_output output = Inl e \<Longrightarrow> status_code e = 500"
  by (auto simp: parse_chain_output_def split: sum.splits)

lemma search_stage_status:
  "fst (search_stage sv file) = Inl e \<Longrightarrow>
     status_code e = 400 \<or> status_code e = 413 \<or> status_code e = 500"
  by (auto simp: search_stage_def split: sum.splits prod.splits
      dest: validate_file_status extract_status parse_status)

lemma search_stage_no_insert: "insert_calls (snd (search_stage sv file)) = 0"
  by (simp add: search_stage_def insert_calls_def split: sum.splits prod.splits)

lemma insert_calls_append: "insert_calls (xs @ ys) = insert_calls xs + insert_calls ys"
  by (simp add: insert_calls_def)

lemma insert_calls_admit:
  "insert_calls (admit sv new_doc detected) = (if detected then 0 else 1)"
  by (simp add: admit_def insert_calls_def split: sum.splits)

lemma search_stage_add_documents:
  "search_stage (sv\<lparr>add_documents := f\<rparr>) file = search_stage sv file"
  by (simp add: search_stage_def split: sum.splits prod.splits)

lemma check_plagiarism_failed:
  "search_stage sv file = (Inl e, calls) \<Longrightarrow> check_plagiarism sv file = (Inl e, calls)"
  by (simp add: check_plagiarism_def)

lemma check_plagiarism_decided:
  "search_stage sv file = (Inr (new_doc, results), calls) \<Longrightarrow>
     check_plagiarism sv file =
       (Inr (respond (analyze_results results)),
        calls @ admit sv new_doc (plagiarism_detected (analyze_results results)))"
  by (simp add: check_plagiarism_def Let_def)

lemma check_plagiarism_cases:
  obtains (failed) e calls where "search_stage sv file = (Inl e, calls)"
  | (decided) new_doc results calls where "search_stage sv file = (Inr (new_doc, results), calls)"
proof (cases "search_stage sv file")
  case (Pair r calls)
  then show ?thesis
    by (cases r) (auto intro: failed decided)
qed

lemma reply_status:
  "fst (http_reply (fst (check_plagiarism sv file))) \<in> {200, 400, 413, 500}"
proof (cases rule: check_plagiarism_cases[of sv "file"])
  case (failed e calls)
  then have "fst (search_stage sv file) = Inl e" by simp
  from search_stage_status[OF this] failed show ?thesis
    by (cases e) (auto simp: check_plagiarism_failed)
next
  case (decided new_doc results calls)
  then show ?thesis by (simp add: check_plagiarism_decided)
qed

subsection \<open>The inputs of the tests, evaluated\<close>

lemma test_pdf_valid: "validate_file test_pdf = Inr ()"
  by (simp add: validate_file_def test_pdf_def size_too_large_def MAX_FILE_SIZE_def
      str_endswith_def str_lower_def lower_char_def suffix_to_prefix)

lemma test_extract:
  "extract_full_pdf_text (Pages [''1.1 Purpose: testing'']) = Inr ''1.1 Purpose: testing''"
  by (simp add: extract_full_pdf_text_def str_strip_def isspace_def)

lemma test_parse:
  "parse_chain_output ''SUMMARY:\<newline>Test summary\<newline>\<newline>SKILLS:\<newline>Python'' =
     Inr (''Test summary'', ''Python'')"
  by (simp add: parser_eval)

lemma test_search_stage:
  "search_stage (patched (Inr ''SUMMARY:\<newline>Test summary\<newline>\<newline>SKILLS:\<newline>Python'') (Inr found) added) test_pdf =
     (Inr (new_document test_pdf [37, 80, 68, 70] ''Test summary'' ''Python'', found),
      [ChainInvoke ''1.1 Purpose: testing'', SimilaritySearch ''Test summary'' 3])"
proof -
  have "read test_pdf = Inr [37, 80, 68, 70]"
    by (simp add: test_pdf_def)
  then show ?thesis
    by (simp add: search_stage_def test_pdf_valid patched_def test_extract test_parse)
qed


lemmas decision_eval =
  analyze_results_def analyze_def source_file_def has_label_def corpus_doc_def
  unlabelled_doc_def flagged_def labels_def Let_def

lemma first_seen_map_inj:
  "inj f \<Longrightarrow> first_seen (map f xs) = map f (first_seen xs)"
proof (induction xs rule: first_seen.induct)
  case 1
  then show ?case by simp
next
  case (2 x xs)
  have "filter (\<lambda>y. y \<noteq> f x) (map f xs) = map f (filter (\<lambda>y. y \<noteq> x) xs)"
    using \<open>inj f\<close> by (simp add: filter_map o_def inj_eq)
  with 2 show ?case by simp
qed

lemma labels_all_labelled:
  "\<forall>m\<in>set ms. has_label (fst m) \<Longrightarrow> map Some (labels ms) = map (\<lambda>m. source_file (fst m)) ms"
  by (induction ms) (auto simp: labels_def has_label_def split: option.splits)

section \<open>The claims\<close>

text \<open>
  C1 (as the code has it). The flag \<open>plagiarism_detected\<close> is set exactly when some match
  has a score of at least 0.75. \<open>matched_files\<close> is non-empty exactly when some match
  of at least 0.75 also has a label that is present and not empty, so a non-empty
  \<open>matched_files\<close> implies the flag, and the two are equivalent whenever every match at
  or above the threshold has such a label.
\<close>

theorem detected_iff_score_matched_iff_label:
  "(plagiarism_detected (analyze_results ms) \<longleftrightarrow> (\<exists>m\<in>set ms. snd m \<ge> 0.75)) \<and>
   (matched_files (analyze_results ms) \<noteq> [] \<longleftrightarrow>
      (\<exists>m\<in>set ms. snd m \<ge> 0.75 \<and> has_label (fst m))) \<and>
   (matched_files (analyze_results ms) \<noteq> [] \<longrightarrow> plagiarism_detected (analyze_results ms)) \<and>
   ((\<forall>m\<in>set ms. snd m \<ge> 0.75 \<longrightarrow> has_label (fst m)) \<longrightarrow>
      (plagiarism_detected (analyze_results ms) \<longleftrightarrow> matched_files (analyze_results ms) \<noteq> []))"
proof -
  have d: "plagiarism_detected (analyze_results ms) \<longleftrightarrow> (\<exists>m\<in>set ms. snd m \<ge> 0.75)"
    by (simp add: analyze_results_def detected_iff)
  have f: "matched_files (analyze_results ms) \<noteq> [] \<longleftrightarrow>
      (\<exists>m\<in>set ms. snd m \<ge> 0.75 \<and> has_label (fst m))"
    by (simp only: analyze_results_def matched_files_nonempty)
  show ?thesis
    unfolding d f by blast
qed

theorem detected_iff_score_matched_iff_label_witness:
  "plagiarism_detected (analyze_results
      [(corpus_doc ''existing.pdf'', 0.85), (corpus_doc ''low_sim.pdf'', 0.5)]) \<and>
   matched_files (analyze_results
      [(corpus_doc ''existing.pdf'', 0.85), (corpus_doc ''low_sim.pdf'', 0.5)]) \<noteq> []"
  using detected_iff_score_matched_iff_label
    [of "[(corpus_doc ''existing.pdf'', 0.85), (corpus_doc ''low_sim.pdf'', 0.5)]"]
  by (simp add: has_label_def corpus_doc_def source_file_def)

text \<open>
  C1 as stated fails: a single match with score 0.9 whose document has no
  \<open>source_file\<close> entry sets the flag and leaves \<open>matched_files\<close> empty.
\<close>

theorem detected_with_empty_matched_files:
  "plagiarism_detected (analyze_results [(unlabelled_doc, 0.9)]) \<and>
   matched_files (analyze_results [(unlabelled_doc, 0.9)]) = []"
  by (simp add: decision_eval)

text \<open>
  C2 (as the code has it). \<open>matched_files\<close> holds the labels that are present and not
  empty of the matches with score at least 0.75, each once, in the order first met;
  where every such match has a label, these are all the \<open>source_file\<close> values of those
  matches.
\<close>

theorem matched_files_first_seen_labels:
  "matched_files (analyze_results ms) = first_seen (labels (flagged 0.75 ms)) \<and>
   distinct (matched_files (analyze_results ms)) \<and>
   ((\<forall>m\<in>set (flagged 0.75 ms). has_label (fst m)) \<longrightarrow>
      map Some (matched_files (analyze_results ms)) =
        first_seen (map (\<lambda>m. source_file (fst m)) (flagged 0.75 ms)))"
proof -
  have eq: "matched_files (analyze_results ms) = first_seen (labels (flagged 0.75 ms))"
    by (simp add: analyze_results_def matched_files_eq)
  have "map Some (first_seen (labels (flagged 0.75 ms))) =
        first_seen (map (\<lambda>m. source_file (fst m)) (flagged 0.75 ms))"
    if "\<forall>m\<in>set (flagged 0.75 ms). has_label (fst m)"
    using labels_all_labelled[OF that] first_seen_map_inj[of Some "labels (flagged 0.75 ms)"]
    by simp
  with eq show ?thesis
    by (simp add: first_seen_distinct)
qed

theorem matched_files_first_seen_labels_witness:
  "matched_files (analyze_results
      [(corpus_doc ''B'', 0.8), (corpus_doc ''A'', 0.76), (corpus_doc ''B'', 0.9),
       (corpus_doc ''C'', 0.5)]) = [Str ''B'', Str ''A''] \<and>
   map Some (matched_files (analyze_results
      [(corpus_doc ''B'', 0.8), (corpus_doc ''A'', 0.76), (corpus_doc ''B'', 0.9),
       (corpus_doc ''C'', 0.5)])) = [Some (Str ''B''), Some (Str ''A'')]"
  using matched_files_first_seen_labels
    [of "[(corpus_doc ''B'', 0.8), (corpus_doc ''A'', 0.76), (corpus_doc ''B'', 0.9),
          (corpus_doc ''C'', 0.5)]"]
  by (simp add: flagged_def labels_def has_label_def corpus_doc_def source_file_def)

text \<open>
  C2 as stated fails: a match with score 0.9 whose label is the empty string is at or
  above the threshold, and its label is not in \<open>matched_files\<close>.
\<close>

theorem empty_label_not_reported:
  "matched_files (analyze_results [(corpus_doc [], 0.9)]) = [] \<and>
   first_seen (map (\<lambda>m. source_file (fst m)) (flagged 0.75 [(corpus_doc [], 0.9)])) =
     [Some (Str [])]"
  by (simp add: decision_eval)

text \<open>
  C3. With every score in the unit interval, \<open>max_score\<close> is 0 for no matches and the
  greatest score otherwise, and the loop run with any other threshold computes the same
  \<open>max_score\<close>.
\<close>

theorem max_score_is_highest:
  assumes "\<forall>m\<in>set ms. 0 \<le> snd m \<and> snd m \<le> 1"
  shows "max_score (analyze_results ms) = (if ms = [] then 0 else Max (snd ` set ms)) \<and>
         max_score (analyze th ms) = max_score (analyze_results ms)"
proof -
  have "Max (insert 0 (snd ` set ms)) = Max (snd ` set ms)" if "ms \<noteq> []"
  proof -
    from that obtain m where m: "m \<in> set ms" by (cases ms) auto
    with assms have "0 \<le> snd m" by blast
    also have "snd m \<le> Max (snd ` set ms)" using m by simp
    finally have "max 0 (Max (snd ` set ms)) = Max (snd ` set ms)" by simp
    moreover have "Max (insert 0 (snd ` set ms)) = max 0 (Max (snd ` set ms))"
      using that by (intro Max_insert) auto
    ultimately show ?thesis by simp
  qed
  then show ?thesis
    by (simp add: analyze_results_def max_score_eq)
qed

theorem max_score_is_highest_witness:
  "max_score (analyze_results [(corpus_doc ''other.pdf'', 0.5), (corpus_doc ''another.pdf'', 0.3)])
     = 0.5 \<and>
   max_score (analyze 0.2 [(corpus_doc ''other.pdf'', 0.5), (corpus_doc ''another.pdf'', 0.3)])
     = max_score (analyze_results
         [(corpus_doc ''other.pdf'', 0.5), (corpus_doc ''another.pdf'', 0.3)])"
  using max_score_is_highest
    [of "[(corpus_doc ''other.pdf'', 0.5), (corpus_doc ''another.pdf'', 0.3)]" "0.2"]
  by simp

lemma test_check_plagiarism:
  "check_plagiarism
     (patched (Inr ''SUMMARY:\<newline>Test summary\<newline>\<newline>SKILLS:\<newline>Python'') (Inr found) added) test_pdf =
   (Inr (respond (analyze_results found)),
    [ChainInvoke ''1.1 Purpose: testing'', SimilaritySearch ''Test summary'' 3] @
    admit (patched (Inr ''SUMMARY:\<newline>Test summary\<newline>\<newline>SKILLS:\<newline>Python'') (Inr found) added)
      (new_document test_pdf [37, 80, 68, 70] ''Test summary'' ''Python'')
      (plagiarism_detected (analyze_results found)))"
  by (rule check_plagiarism_decided[OF test_search_stage])

lemma test_add_raises: "add_documents (patched chain found (Inl e)) docs = Inl e"
  by (simp add: patched_def)

lemma analyze_results_Nil:
  "analyze_results [] = \<lparr>plagiarism_detected = False, max_score = 0, matched_files = []\<rparr>"
  by (simp add: analyze_results_def analyze_Nil)

lemma respond_Nil:
  "respond (analyze_results []) =
     \<lparr>plagiarism_detected = False, max_score = 0, matched_files = [],
      threshold = 0.75, document_added = True\<rparr>"
  by (simp add: respond_def analyze_results_Nil py_round_def round_half_even_def)

text \<open>
  C4. The insertion is called at most once in a request. When the handler reaches a
  decision and answers, it has called the insertion exactly when \<open>plagiarism_detected\<close>
  is false, and \<open>document_added\<close> is the negation of \<open>plagiarism_detected\<close>; when it
  answers with an error, it has not called the insertion.
\<close>

theorem admission_exclusive:
  "insert_calls (snd (check_plagiarism sv file)) \<le> 1 \<and>
   (\<forall>resp. fst (check_plagiarism sv file) = Inr resp \<longrightarrow>
      (insert_calls (snd (check_plagiarism sv file)) = 1 \<longleftrightarrow> \<not> plagiarism_detected resp) \<and>
      document_added resp = (\<not> plagiarism_detected resp)) \<and>
   (\<forall>e. fst (check_plagiarism sv file) = Inl e \<longrightarrow>
      insert_calls (snd (check_plagiarism sv file)) = 0)"
proof (cases rule: check_plagiarism_cases[of sv "file"])
  case (failed e calls)
  have "insert_calls calls = 0"
    using search_stage_no_insert[of sv "file"] failed by simp
  with failed show ?thesis
    by (simp add: check_plagiarism_failed)
next
  case (decided new_doc results calls)
  have "insert_calls calls = 0"
    using search_stage_no_insert[of sv "file"] decided by simp
  with decided show ?thesis
    by (simp add: check_plagiarism_decided insert_calls_append insert_calls_admit respond_def)
qed

theorem admission_exclusive_witness:
  "insert_calls (snd (check_plagiarism
      (patched (Inr ''SUMMARY:\<newline>Test summary\<newline>\<newline>SKILLS:\<newline>Python'') (Inr []) (Inr ())) test_pdf)) = 1 \<and>
   fst (check_plagiarism
      (patched (Inr ''SUMMARY:\<newline>Test summary\<newline>\<newline>SKILLS:\<newline>Python'') (Inr []) (Inr ())) test_pdf) =
     Inr \<lparr>plagiarism_detected = False, max_score = 0, matched_files = [],
          threshold = 0.75, document_added = True\<rparr>"
  using admission_exclusive
    [of "patched (Inr ''SUMMARY:\<newline>Test summary\<newline>\<newline>SKILLS:\<newline>Python'') (Inr []) (Inr ())" test_pdf]
  by (simp add: test_check_plagiarism respond_Nil)

text \<open>
  C5. When the request has reached the search, the decision is "no duplicate" and
  \<open>add_documents\<close> raises, the reply is 200 and carries the \<open>plagiarism_detected\<close> of the
  decision and its \<open>max_score\<close> rounded to four decimals: the same response as when the
  insertion succeeds.
\<close>

theorem insert_failure_isolated:
  assumes "search_stage sv file = (Inr (new_doc, results), calls)"
    and "\<not> plagiarism_detected (analyze_results results)"
    and "add_documents sv [new_doc] = Inl e"
  shows "\<exists>resp. http_reply (fst (check_plagiarism sv file)) = (200, Json resp) \<and>
      plagiarism_detected resp = plagiarism_detected (analyze_results results) \<and>
      max_score resp = py_round (max_score (analyze_results results)) 4 \<and>
      fst (check_plagiarism sv file) =
        fst (check_plagiarism (sv\<lparr>add_documents := \<lambda>_. Inr ()\<rparr>) file)"
proof -
  have "search_stage (sv\<lparr>add_documents := \<lambda>_. Inr ()\<rparr>) file = (Inr (new_doc, results), calls)"
    using assms(1) by (simp add: search_stage_add_documents)
  then have "fst (check_plagiarism (sv\<lparr>add_documents := \<lambda>_. Inr ()\<rparr>) file) =
      Inr (respond (analyze_results results))"
    by (simp add: check_plagiarism_decided)
  moreover have "fst (check_plagiarism sv file) = Inr (respond (analyze_results results))"
    using assms(1) by (simp add: check_plagiarism_decided)
  ultimately show ?thesis
    by (simp add: respond_def)
qed

theorem insert_failure_isolated_witness:
  "http_reply (fst (check_plagiarism
      (patched (Inr ''SUMMARY:\<newline>Test summary\<newline>\<newline>SKILLS:\<newline>Python'') (Inr []) (Inl OtherError))
      test_pdf)) =
     (200, Json \<lparr>plagiarism_detected = False, max_score = 0, matched_files = [],
                 threshold = 0.75, document_added = True\<rparr>)"
proof -
  have nodup: "\<not> plagiarism_detected (analyze_results [])"
    by (simp add: analyze_results_Nil)
  from insert_failure_isolated[OF test_search_stage nodup test_add_raises]
  obtain resp where "http_reply (fst (check_plagiarism
      (patched (Inr ''SUMMARY:\<newline>Test summary\<newline>\<newline>SKILLS:\<newline>Python'') (Inr []) (Inl OtherError))
      test_pdf)) = (200, Json resp)"
    and "max_score resp = py_round (max_score (analyze_results [])) 4"
    by blast
  then show ?thesis
    by (simp add: test_check_plagiarism respond_Nil)
qed

lemma test_admit:
  "admit (patched chain found (Inl e)) new_doc False = [AddDocuments [new_doc]]"
  by (simp add: admit_def patched_def)

text \<open>
  C6 (as the code has it). When \<open>add_documents\<close> raises after a "no duplicate"
  decision, the reply is 200 and its \<open>document_added\<close> is still true: the field is the
  negation of \<open>plagiarism_detected\<close>, whatever the insertion did. The response is the
  one of a request whose insertion succeeds, and the insertion was called once.
\<close>

theorem document_added_after_failed_insert:
  assumes "search_stage sv file = (Inr (new_doc, results), calls)"
    and "\<not> plagiarism_detected (analyze_results results)"
    and "add_documents sv [new_doc] = Inl e"
  shows "\<exists>resp. http_reply (fst (check_plagiarism sv file)) = (200, Json resp) \<and>
      document_added resp \<and>
      document_added resp = (\<not> plagiarism_detected resp) \<and>
      fst (check_plagiarism sv file) =
        fst (check_plagiarism (sv\<lparr>add_documents := \<lambda>_. Inr ()\<rparr>) file) \<and>
      snd (check_plagiarism sv file) = calls @ [AddDocuments [new_doc]]"
proof -
  have "search_stage (sv\<lparr>add_documents := \<lambda>_. Inr ()\<rparr>) file = (Inr (new_doc, results), calls)"
    using assms(1) by (simp add: search_stage_add_documents)
  then have "fst (check_plagiarism (sv\<lparr>add_documents := \<lambda>_. Inr ()\<rparr>) file) =
      Inr (respond (analyze_results results))"
    by (simp add: check_plagiarism_decided)
  moreover have "check_plagiarism sv file =
      (Inr (respond (analyze_results results)), calls @ [AddDocuments [new_doc]])"
    using assms by (simp add: check_plagiarism_decided admit_def)
  ultimately show ?thesis
    using assms(2) by (simp add: respond_def)
qed

theorem document_added_after_failed_insert_witness:
  "http_reply (fst (check_plagiarism
      (patched (Inr ''SUMMARY:\<newline>Test summary\<newline>\<newline>SKILLS:\<newline>Python'') (Inr []) (Inl OtherError))
      test_pdf)) =
     (200, Json \<lparr>plagiarism_detected = False, max_score = 0, matched_files = [],
                 threshold = 0.75, document_added = True\<rparr>) \<and>
   snd (check_plagiarism
      (patched (Inr ''SUMMARY:\<newline>Test summary\<newline>\<newline>SKILLS:\<newline>Python'') (Inr []) (Inl OtherError))
      test_pdf) =
     [ChainInvoke ''1.1 Purpose: testing'', SimilaritySearch ''Test summary'' 3] @
     [AddDocuments [new_document test_pdf [37, 80, 68, 70] ''Test summary'' ''Python'']]"
proof -
  have nodup: "\<not> plagiarism_detected (analyze_results [])"
    by (simp add: analyze_results_Nil)
  from document_added_after_failed_insert[OF test_search_stage nodup test_add_raises]
  obtain resp where "http_reply (fst (check_plagiarism
      (patched (Inr ''SUMMARY:\<newline>Test summary\<newline>\<newline>SKILLS:\<newline>Python'') (Inr []) (Inl OtherError))
      test_pdf)) = (200, Json resp)"
    and "document_added resp"
    and calls: "snd (check_plagiarism
      (patched (Inr ''SUMMARY:\<newline>Test summary\<newline>\<newline>SKILLS:\<newline>Python'') (Inr []) (Inl OtherError))
      test_pdf) =
     [ChainInvoke ''1.1 Purpose: testing'', SimilaritySearch ''Test summary'' 3] @
     [AddDocuments [new_document test_pdf [37, 80, 68, 70] ''Test summary'' ''Python'']]"
    by blast
  have "http_reply (fst (check_plagiarism
      (patched (Inr ''SUMMARY:\<newline>Test summary\<newline>\<newline>SKILLS:\<newline>Python'') (Inr []) (Inl OtherError))
      test_pdf)) =
     (200, Json \<lparr>plagiarism_detected = False, max_score = 0, matched_files = [],
                 threshold = 0.75, document_added = True\<rparr>)"
    by (simp add: test_check_plagiarism respond_Nil)
  with calls show ?thesis
    by (rule_tac conjI)
qed

text \<open>
  C6 as stated fails: in the request of \<open>test_vector_store_add_failure\<close> (no match
  found, the insertion raises) the response says \<open>document_added = True\<close>, not false.
\<close>

theorem failed_insert_reported_as_added:
  "add_documents
      (patched (Inr ''SUMMARY:\<newline>Test summary\<newline>\<newline>SKILLS:\<newline>Python'') (Inr []) (Inl OtherError))
      [new_document test_pdf [37, 80, 68, 70] ''Test summary'' ''Python''] = Inl OtherError \<and>
   check_plagiarism
      (patched (Inr ''SUMMARY:\<newline>Test summary\<newline>\<newline>SKILLS:\<newline>Python'') (Inr []) (Inl OtherError))
      test_pdf =
     (Inr \<lparr>plagiarism_detected = False, max_score = 0, matched_files = [],
           threshold = 0.75, document_added = True\<rparr>,
      [ChainInvoke ''1.1 Purpose: testing'', SimilaritySearch ''Test summary'' 3,
       AddDocuments [new_document test_pdf [37, 80, 68, 70] ''Test summary'' ''Python'']])"
proof -
  have "plagiarism_detected (analyze_results []) = False"
    by (simp add: analyze_results_Nil)
  then show ?thesis
    by (simp add: test_add_raises test_check_plagiarism respond_Nil test_admit)
qed

lemma skills_single_marker:
  "after_first output ''SKILLS:'' = Some rest \<Longrightarrow> str_find rest ''SKILLS:'' = None \<Longrightarrow>
     skills_up_to_next_marker output = skills_as_specified output"
  by (simp add: skills_up_to_next_marker_def skills_as_specified_def before_first_def)

text \<open>
  C7 (as the code has it). When the parser returns, the summary is the text before the
  first \<open>SKILLS:\<close> with every \<open>SUMMARY:\<close> removed, trimmed; the skills are the trimmed
  text between the first \<open>SKILLS:\<close> and the next one (the end of the output when there
  is no other), and empty without a marker. With at most one marker this is all the
  text after it.
\<close>

theorem parse_chain_output_parts:
  assumes "parse_chain_output output = Inr (summary, skills)"
  shows "summary = summary_as_specified output \<and>
         skills = skills_up_to_next_marker output \<and>
         (after_first output ''SKILLS:'' = None \<longrightarrow> skills = []) \<and>
         (\<forall>rest. after_first output ''SKILLS:'' = Some rest \<longrightarrow>
                 str_find rest ''SKILLS:'' = None \<longrightarrow> skills = skills_as_specified output)"
proof -
  from assms have s: "summary = summary_as_specified output"
    and k: "skills = skills_up_to_next_marker output"
    by (simp_all add: parse_chain_output_eq split: if_splits)
  have "skills = []" if "after_first output ''SKILLS:'' = None"
    using that k by (simp add: skills_up_to_next_marker_def)
  with s k show ?thesis
    by (simp add: skills_single_marker)
qed

theorem parse_chain_output_parts_witness:
  "parse_chain_output ''SUMMARY:\<newline>foo\<newline>\<newline>SKILLS:\<newline>bar,baz'' = Inr (''foo'', ''bar,baz'') \<and>
   summary_as_specified ''SUMMARY:\<newline>foo\<newline>\<newline>SKILLS:\<newline>bar,baz'' = ''foo'' \<and>
   skills_as_specified ''SUMMARY:\<newline>foo\<newline>\<newline>SKILLS:\<newline>bar,baz'' = ''bar,baz''"
proof -
  have p: "parse_chain_output ''SUMMARY:\<newline>foo\<newline>\<newline>SKILLS:\<newline>bar,baz'' = Inr (''foo'', ''bar,baz'')"
    by (simp add: parser_eval)
  have a: "after_first ''SUMMARY:\<newline>foo\<newline>\<newline>SKILLS:\<newline>bar,baz'' ''SKILLS:'' = Some ''\<newline>bar,baz''"
    by (simp add: after_first_def)
  have n: "str_find ''\<newline>bar,baz'' ''SKILLS:'' = None"
    by simp
  from parse_chain_output_parts[OF p] a n p show ?thesis
    by simp
qed

text \<open>
  C7 as stated fails when \<open>SKILLS:\<close> occurs twice: the parser returns the text up to
  the second marker, not everything after the first.
\<close>

theorem skills_cut_at_second_marker:
  "parse_chain_output ''SUMMARY:\<newline>foo\<newline>\<newline>SKILLS:\<newline>bar SKILLS: baz'' = Inr (''foo'', ''bar'') \<and>
   skills_as_specified ''SUMMARY:\<newline>foo\<newline>\<newline>SKILLS:\<newline>bar SKILLS: baz'' = ''bar SKILLS: baz''"
  by (simp add: parser_eval)

text \<open>
  C8. The parser raises \<open>HTTPException(500)\<close> exactly when the trimmed summary is empty
  and returns otherwise; every error it raises has status 500; and a request whose
  summarizer output has an empty summary is answered with that error.
\<close>

theorem parse_error_iff_empty_summary:
  "(parse_chain_output output = Inl (HTTPException 500 ''Failed to process document content'')
      \<longleftrightarrow> summary_as_specified output = []) \<and>
   ((\<exists>r. parse_chain_output output = Inr r) \<longleftrightarrow> summary_as_specified output \<noteq> []) \<and>
   (\<forall>e. parse_chain_output output = Inl e \<longrightarrow> status_code e = 500) \<and>
   (validate_file file = Inr () \<longrightarrow> read file = Inr file_bytes \<longrightarrow>
    extract_full_pdf_text (fitz_open sv file_bytes) = Inr full_text \<longrightarrow>
    chain_invoke sv full_text = Inr output \<longrightarrow> summary_as_specified output = [] \<longrightarrow>
      http_reply (fst (check_plagiarism sv file)) =
        (500, Detail ''Failed to process document content''))"
proof -
  have "http_reply (fst (check_plagiarism sv file)) =
        (500, Detail ''Failed to process document content'')"
    if "validate_file file = Inr ()" "read file = Inr file_bytes"
      "extract_full_pdf_text (fitz_open sv file_bytes) = Inr full_text"
      "chain_invoke sv full_text = Inr output" "summary_as_specified output = []"
  proof -
    from that have "search_stage sv file =
        (Inl (HTTPException 500 ''Failed to process document content''), [ChainInvoke full_text])"
      by (simp add: search_stage_def parse_chain_output_eq)
    then show ?thesis
      by (simp add: check_plagiarism_failed)
  qed
  then show ?thesis
    by (auto simp: parse_chain_output_eq)
qed

theorem parse_error_iff_empty_summary_witness:
  "parse_chain_output ''SUMMARY:\<newline>'' =
     Inl (HTTPException 500 ''Failed to process document content'') \<and>
   http_reply (fst (check_plagiarism (patched (Inr ''SUMMARY:\<newline>'') (Inr []) (Inr ())) test_pdf)) =
     (500, Detail ''Failed to process document content'') \<and>
   (\<exists>r. parse_chain_output ''SUMMARY:\<newline>foo'' = Inr r)"
proof -
  have e: "summary_as_specified ''SUMMARY:\<newline>'' = []"
    by (simp add: parser_eval)
  have r: "read test_pdf = Inr [37, 80, 68, 70]"
    by (simp add: test_pdf_def)
  have x: "extract_full_pdf_text
      (fitz_open (patched (Inr ''SUMMARY:\<newline>'') (Inr []) (Inr ())) [37, 80, 68, 70]) =
      Inr ''1.1 Purpose: testing''"
    by (simp add: patched_def test_extract)
  have c: "chain_invoke (patched (Inr ''SUMMARY:\<newline>'') (Inr []) (Inr ())) ''1.1 Purpose: testing'' =
      Inr ''SUMMARY:\<newline>''"
    by (simp add: patched_def)
  have n: "summary_as_specified ''SUMMARY:\<newline>foo'' \<noteq> []"
    by (simp add: parser_eval)
  from parse_error_iff_empty_summary
    [of "''SUMMARY:\<newline>''" test_pdf "[37, 80, 68, 70]"
      "patched (Inr ''SUMMARY:\<newline>'') (Inr []) (Inr ())" "''1.1 Purpose: testing''"]
    parse_error_iff_empty_summary[of "''SUMMARY:\<newline>foo''"] e r x c n test_pdf_valid
  show ?thesis
    by simp
qed

text \<open>
  The filename check of \<open>validate_file\<close>, for an upload that reaches it: a missing or
  empty filename, after a passing size check, raises 400.
\<close>

lemma validate_file_missing_filename:
  "filename file = None \<or> filename file = Some [] \<Longrightarrow> \<not> size_too_large file \<Longrightarrow>
     validate_file file = Inl (HTTPException 400 ''Filename is required'')"
  by (auto simp: validate_file_def)

text \<open>
  C10. \<open>validate_file\<close> raises 413 exactly when the size attribute is present, not zero
  and above 10 MiB. It never looks at the bytes; so with the size attribute \<open>None\<close> or
  \<open>0\<close>, a well-named upload of the right content type passes whatever its bytes are.
\<close>

theorem size_check_only_on_truthy_size:
  "((\<exists>d. validate_file file = Inl (HTTPException 413 d)) \<longleftrightarrow>
      (\<exists>n. size_attr file = Some n \<and> n \<noteq> 0 \<and> n > 10 * 1024 * 1024)) \<and>
   validate_file (file\<lparr>read := r\<rparr>) = validate_file file \<and>
   ((size_attr file = None \<or> size_attr file = Some 0) \<longrightarrow>
      filename file = Some name \<longrightarrow> name \<noteq> [] \<longrightarrow> str_endswith (str_lower name) ''.pdf'' \<longrightarrow>
      (content_type file = None \<or> content_type file = Some ''application/pdf'') \<longrightarrow>
      (\<forall>bytes. validate_file (file\<lparr>read := Inr bytes\<rparr>) = Inr ()))"
proof -
  have a: "(\<exists>d. validate_file file = Inl (HTTPException 413 d)) \<longleftrightarrow>
      (\<exists>n. size_attr file = Some n \<and> n \<noteq> 0 \<and> n > 10 * 1024 * 1024)"
    by (auto simp: validate_file_def size_too_large_def MAX_FILE_SIZE_def
        split: option.splits if_splits)
  have b: "validate_file (file\<lparr>read := r\<rparr>) = validate_file file" for r
    by (simp add: validate_file_def size_too_large_def split: option.splits)
  have c: "validate_file file = Inr ()"
    if "size_attr file = None \<or> size_attr file = Some 0" "filename file = Some name"
      "name \<noteq> []" "str_endswith (str_lower name) ''.pdf''"
      "content_type file = None \<or> content_type file = Some ''application/pdf''"
    using that by (auto simp: validate_file_def size_too_large_def)
  from a b c show ?thesis
    by simp
qed

theorem size_check_only_on_truthy_size_witness:
  "(\<forall>bytes. validate_file \<lparr>size_attr = None, filename = Some ''large.pdf'',
       content_type = Some ''application/pdf'', read = Inr bytes\<rparr> = Inr ()) \<and>
   (\<exists>d. validate_file \<lparr>size_attr = Some (10 * 1024 * 1024 + 1), filename = Some ''large.pdf'',
       content_type = Some ''application/pdf'', read = Inr []\<rparr> = Inl (HTTPException 413 d))"
  using size_check_only_on_truthy_size
    [of "\<lparr>size_attr = None, filename = Some ''large.pdf'',
          content_type = Some ''application/pdf'', read = Inr []\<rparr>" _ "''large.pdf''"]
    size_check_only_on_truthy_size
    [of "\<lparr>size_attr = Some (10 * 1024 * 1024 + 1), filename = Some ''large.pdf'',
          content_type = Some ''application/pdf'', read = Inr []\<rparr>"]
  by (simp add: str_endswith_def str_lower_def lower_char_def suffix_to_prefix)

end
